theory Spec2Isabelle
  imports Main
begin

section \<open>Python values\<close>

text \<open>
  The pipeline is one Python module, \<^verbatim>\<open>dags/app.py\<close>, with two task functions and a DAG
  that chains three tasks. A Python \<^verbatim>\<open>str\<close> is modelled as a \<^typ>\<open>string\<close>, one
  \<^typ>\<open>char\<close> per code point, so that \<^verbatim>\<open>s[:200]\<close> is \<^term>\<open>take 200 s\<close>. A call that
  can raise returns a sum, \<^term>\<open>Inl\<close> carrying the exception.
\<close>

datatype py_exception =
    RequestException string
  | JSONDecodeError string
  | NameError string
  | ValueError string
  | Exception string

type_synonym 'a result = "py_exception + 'a"

text \<open>\<^verbatim>\<open>xs[:n]\<close> for a Python int \<^verbatim>\<open>n\<close>: a negative \<^verbatim>\<open>n\<close> counts from the end.
  \<^verbatim>\<open>DataFrame.head(n)\<close> is \<^verbatim>\<open>iloc[:n]\<close>, the same slice on the rows.\<close>

definition slice_to :: "'a list \<Rightarrow> int \<Rightarrow> 'a list" where
  "slice_to xs n =
     (if 0 \<le> n then take (nat n) xs else take (length xs - nat (- n)) xs)"

text \<open>\<^verbatim>\<open>sep.join(xs)\<close> on a list of strings.\<close>

fun join :: "string \<Rightarrow> string list \<Rightarrow> string" where
  "join sep [] = []"
| "join sep [x] = x"
| "join sep (x # y # ys) = x @ sep @ join sep (y # ys)"

section \<open>The data model\<close>

text \<open>A book as the fetch task builds it (lines 61-66): a dict with four string values.\<close>

record book =
  title :: string
  author :: string
  price :: string
  rating :: string

text \<open>
  The API payload, as the code reads it (lines 33-57): a JSON object with an optional
  \<^verbatim>\<open>items\<close> list; each item may hold \<^verbatim>\<open>volumeInfo\<close> and \<^verbatim>\<open>saleInfo\<close>, and every key
  the code reads with \<^verbatim>\<open>.get\<close> may be absent. The model covers payloads in which the
  keys that are present have the types of the API's schema: strings for \<^verbatim>\<open>title\<close>,
  \<^verbatim>\<open>saleability\<close> and \<^verbatim>\<open>currencyCode\<close>, a list of strings for \<^verbatim>\<open>authors\<close>, JSON numbers
  (the type variable \<open>'n\<close>) for \<^verbatim>\<open>amount\<close>, \<^verbatim>\<open>averageRating\<close> and \<^verbatim>\<open>ratingsCount\<close>.
  Other payloads are covered only where reading them raises (\<open>JsonRaises\<close> below).
  \<open>other_keys\<close> lists the further keys of a \<^verbatim>\<open>retailPrice\<close> object: the code never reads
  them, but they make the dict truthy.
\<close>

record 'n retail_price =
  amount :: "'n option"
  currencyCode :: "string option"
  other_keys :: "string list"

record 'n sale_info =
  saleability :: "string option"
  retailPrice :: "'n retail_price option"

record 'n volume_info =
  volume_title :: "string option"
  authors :: "string list option"
  averageRating :: "'n option"
  ratingsCount :: "'n option"

record 'n item =
  volumeInfo :: "'n volume_info option"
  saleInfo :: "'n sale_info option"

text \<open>The empty dict \<^verbatim>\<open>{}\<close> that \<^verbatim>\<open>.get(key, {})\<close> defaults to.\<close>

definition empty_retail_price :: "'n retail_price" where
  "empty_retail_price = \<lparr>amount = None, currencyCode = None, other_keys = []\<rparr>"

definition empty_sale_info :: "'n sale_info" where
  "empty_sale_info = \<lparr>saleability = None, retailPrice = None\<rparr>"

definition empty_volume_info :: "'n volume_info" where
  "empty_volume_info =
     \<lparr>volume_title = None, authors = None, averageRating = None, ratingsCount = None\<rparr>"

text \<open>\<^verbatim>\<open>d.get(key, default)\<close> on a key that is present or absent.\<close>

definition get_or :: "'a option \<Rightarrow> 'a \<Rightarrow> 'a" where
  "get_or v d = (case v of None \<Rightarrow> d | Some x \<Rightarrow> x)"

text \<open>Truthiness of a \<^verbatim>\<open>retailPrice\<close> dict (line 48): true unless the dict is empty.\<close>

definition truthy :: "'n retail_price \<Rightarrow> bool" where
  "truthy p \<longleftrightarrow> amount p \<noteq> None \<or> currencyCode p \<noteq> None \<or> other_keys p \<noteq> []"

section \<open>The fetch task\<close>

subsection \<open>Parsing one item (lines 38-66)\<close>

text \<open>
  \<open>str_of\<close> is Python's rendering of a JSON number inside an f-string. On line 51 the
  test \<^verbatim>\<open>amount != 'N/A'\<close> is true exactly when the key is present, since a number is
  never equal to a string.
\<close>

definition derive_price :: "('n \<Rightarrow> string) \<Rightarrow> 'n sale_info \<Rightarrow> string" where
  "derive_price str_of sale =
     (if saleability sale = Some ''FOR_SALE'' then
        (let price_info = get_or (retailPrice sale) empty_retail_price in
         if truthy price_info then
           (case amount price_info of
              None \<Rightarrow> ''N/A''
            | Some a \<Rightarrow> str_of a @ '' '' @ get_or (currencyCode price_info) ''$'')
         else ''N/A'')
      else if saleability sale = Some ''FREE'' then ''Free''
      else ''N/A'')"

definition derive_rating :: "('n \<Rightarrow> string) \<Rightarrow> 'n volume_info \<Rightarrow> string" where
  "derive_rating str_of vol =
     (case averageRating vol of
        None \<Rightarrow> ''N/A''
      | Some r \<Rightarrow>
          str_of r @ ''/5 ('' @
          (case ratingsCount vol of None \<Rightarrow> ''0'' | Some c \<Rightarrow> str_of c) @ '' reviews)'')"

definition parse_item :: "('n \<Rightarrow> string) \<Rightarrow> 'n item \<Rightarrow> book" where
  "parse_item str_of it =
     (let volume = get_or (volumeInfo it) empty_volume_info;
          sale = get_or (saleInfo it) empty_sale_info
      in \<lparr>title = get_or (volume_title volume) ''Unknown Title'',
          author = join '', '' (get_or (authors volume) [''Unknown Author'']),
          price = derive_price str_of sale,
          rating = derive_rating str_of volume\<rparr>)"

subsection \<open>The request and its outcomes (lines 27-33)\<close>

record request =
  q :: string
  maxResults :: int
  printType :: string

definition build_request :: "int \<Rightarrow> request" where
  "build_request num_books =
     \<lparr>q = ''data+engineering'', maxResults = min num_books 40, printType = ''books''\<rparr>"

text \<open>
  What \<^verbatim>\<open>requests.get\<close> and \<^verbatim>\<open>response.json()\<close> can do: the call raises, or it answers
  with a status code and a body; reading the body raises (\<^verbatim>\<open>response.json()\<close>, or an
  item that makes lines 33-66 raise), or the body is a JSON object whose \<^verbatim>\<open>items\<close> key
  is absent or a list of items.
\<close>

datatype 'n body = JsonRaises py_exception | Json "'n item list option"

datatype 'n api_outcome = GetRaises py_exception | Response int "'n body"

subsection \<open>Cleaning (lines 91-104)\<close>

text \<open>\<^verbatim>\<open>drop_duplicates(subset='title')\<close> keeps the first row of every title.\<close>

primrec drop_seen :: "string list \<Rightarrow> book list \<Rightarrow> book list" where
  "drop_seen seen [] = []"
| "drop_seen seen (b # bs) =
     (if title b \<in> set seen then drop_seen seen bs
      else b # drop_seen (title b # seen) bs)"

definition drop_duplicates :: "book list \<Rightarrow> book list" where
  "drop_duplicates bs = drop_seen [] bs"

definition clean_fields :: "book \<Rightarrow> book" where
  "clean_fields b =
     \<lparr>title = take 200 (title b), author = take 200 (author b),
      price = take 50 (price b), rating = take 50 (rating b)\<rparr>"

text \<open>Lines 91-104 with \<open>limit\<close> for \<^verbatim>\<open>num_books\<close>: the frame is empty exactly when the
  list of books is, and then it is returned as it is.\<close>

definition normalize_books :: "book list \<Rightarrow> int \<Rightarrow> book list" where
  "normalize_books books limit =
     (if books = [] then []
      else map clean_fields (slice_to (drop_duplicates books) limit))"

subsection \<open>The task function (lines 16-108)\<close>

text \<open>
  The module calls \<^verbatim>\<open>generate_sample_book_data\<close> on lines 73, 78, 82 and 87 and never
  defines or imports it, so the task function takes the fallback generator as a
  parameter: what a call of it with the count does. \<open>unbound_generate_sample_book_data\<close>
  is what the name does in the module as it stands: evaluating an unbound global
  raises \<^verbatim>\<open>NameError\<close>.
\<close>

definition unbound_generate_sample_book_data :: "int \<Rightarrow> book list result" where
  "unbound_generate_sample_book_data num_books = Inl (NameError ''generate_sample_book_data'')"

text \<open>
  Lines 23-83. An exception of \<^verbatim>\<open>requests.get\<close> or of the parsing goes to one of the two
  handlers (lines 76-83), which both assign the fallback; an exception raised by the
  fallback inside a handler propagates. On a status other than 200 the fallback is
  called inside the \<^verbatim>\<open>try\<close> (line 73), so an exception of it is caught by a handler,
  which calls it again.
\<close>

definition try_block ::
  "('n \<Rightarrow> string) \<Rightarrow> (int \<Rightarrow> book list result) \<Rightarrow> (request \<Rightarrow> 'n api_outcome) \<Rightarrow> int
     \<Rightarrow> book list result" where
  "try_block str_of generate_sample_book_data api num_books =
     (case api (build_request num_books) of
        GetRaises e \<Rightarrow> generate_sample_book_data num_books
      | Response status_code b \<Rightarrow>
          if status_code = 200 then
            (case b of
               JsonRaises e \<Rightarrow> generate_sample_book_data num_books
             | Json data_items \<Rightarrow>
                 Inr (map (parse_item str_of) (slice_to (get_or data_items []) num_books)))
          else
            (case generate_sample_book_data num_books of
               Inl e \<Rightarrow> generate_sample_book_data num_books
             | Inr books \<Rightarrow> Inr books))"

text \<open>Lines 85-88, the final safety net.\<close>

definition safety_net :: "(int \<Rightarrow> book list result) \<Rightarrow> int \<Rightarrow> book list \<Rightarrow> book list result" where
  "safety_net generate_sample_book_data num_books books =
     (if books = [] then generate_sample_book_data num_books else Inr books)"

text \<open>The whole function: \<^term>\<open>Inr\<close> carries the list pushed to XCom under
  \<^verbatim>\<open>book_data\<close> (line 108), \<^term>\<open>Inl\<close> the exception the task dies with.\<close>

definition fetch_books_from_google_api ::
  "('n \<Rightarrow> string) \<Rightarrow> (int \<Rightarrow> book list result) \<Rightarrow> (request \<Rightarrow> 'n api_outcome) \<Rightarrow> int
     \<Rightarrow> book list result" where
  "fetch_books_from_google_api str_of generate_sample_book_data api num_books =
     (case try_block str_of generate_sample_book_data api num_books of
        Inl e \<Rightarrow> Inl e
      | Inr books \<Rightarrow>
          (case safety_net generate_sample_book_data num_books books of
             Inl e \<Rightarrow> Inl e
           | Inr books' \<Rightarrow> Inr (normalize_books books' num_books)))"

text \<open>The task of the DAG (lines 208-213): the function called with \<^verbatim>\<open>op_args=[25]\<close>.\<close>

definition fetch_book_data_task ::
  "('n \<Rightarrow> string) \<Rightarrow> (int \<Rightarrow> book list result) \<Rightarrow> (request \<Rightarrow> 'n api_outcome)
     \<Rightarrow> book list result" where
  "fetch_book_data_task str_of generate_sample_book_data api =
     fetch_books_from_google_api str_of generate_sample_book_data api 25"

section \<open>The insert task\<close>

subsection \<open>The table (lines 185-205) and the upsert (lines 127-134)\<close>

text \<open>
  A row of \<^verbatim>\<open>book\<close>, without its \<^verbatim>\<open>id\<close>: the database generates the id and the pipeline
  never reads or writes it. The table is the list of its rows in insertion order.
\<close>

record row =
  row_title :: string
  row_authors :: string
  row_price :: string
  row_rating :: string

type_synonym book_table = "row list"

text \<open>\<^verbatim>\<open>INSERT ... ON CONFLICT (title) DO UPDATE SET authors, price, rating\<close>.\<close>

definition upsert :: "book \<Rightarrow> book_table \<Rightarrow> book_table" where
  "upsert b t =
     (if title b \<in> row_title ` set t then
        map (\<lambda>r. if row_title r = title b
                 then r\<lparr>row_authors := author b, row_price := price b, row_rating := rating b\<rparr>
                 else r) t
      else t @ [\<lparr>row_title = title b, row_authors = author b,
                  row_price = price b, row_rating = rating b\<rparr>])"

text \<open>\<^verbatim>\<open>DROP TABLE IF EXISTS book; CREATE TABLE book (...)\<close>: whatever the table held,
  it is empty afterwards.\<close>

definition create_table :: "book_table \<Rightarrow> book_table" where
  "create_table t = []"

subsection \<open>The task function (lines 112-160)\<close>

text \<open>
  What the database does is the environment's: \<open>run_raises i\<close> says whether the
  \<open>i\<close>-th call of \<^verbatim>\<open>postgres_hook.run\<close> raises (the statement is then rolled back and the
  table is as before), and \<open>get_first_raises\<close> is the message of the exception the
  count query raises, if it does.
\<close>

record db_env =
  run_raises :: "nat \<Rightarrow> bool"
  get_first_raises :: "string option"

text \<open>The log lines of the function, one constructor per \<^verbatim>\<open>logging\<close> call: lines 122,
  147 (with the title of the book), 150, 155 and 159.\<close>

datatype log_event =
    Attempting nat
  | InsertError string
  | Processed nat
  | TotalBooks nat
  | OperationError string

record insert_state =
  table :: book_table
  inserted_count :: nat
  log :: "log_event list"

text \<open>The loop of lines 138-148, \<open>i\<close> counting the statements run so far.\<close>

fun insert_loop :: "(nat \<Rightarrow> bool) \<Rightarrow> nat \<Rightarrow> book list \<Rightarrow> insert_state \<Rightarrow> insert_state" where
  "insert_loop raises i [] s = s"
| "insert_loop raises i (b # bs) s =
     insert_loop raises (Suc i) bs
       (if raises i then s\<lparr>log := log s @ [InsertError (title b)]\<rparr>
        else s\<lparr>table := upsert b (table s), inserted_count := Suc (inserted_count s)\<rparr>)"

text \<open>
  What a caller of the function receives. The function has no \<^verbatim>\<open>return\<close> statement, so
  it returns \<^verbatim>\<open>None\<close>; \<open>PySummary\<close> is the value the specification's contract names,
  a \<open>PersistSummary\<close> with the fields \<open>inserted_or_updated\<close> and \<open>failed\<close>.
\<close>

record persist_summary =
  inserted_or_updated :: nat
  failed :: nat

datatype py_return = PyNone | PySummary persist_summary

text \<open>Line 158: the message of the exception that the outer handler raises.\<close>

definition error_msg :: "string \<Rightarrow> string" where
  "error_msg m = ''Error in database operation: '' @ m"

text \<open>Line 119, \<^verbatim>\<open>not book_data\<close>: nothing was pushed, or the list is empty.\<close>

definition no_book_data :: "book list option \<Rightarrow> bool" where
  "no_book_data book_data \<longleftrightarrow> book_data = None \<or> book_data = Some []"

text \<open>
  The whole function, on what \<^verbatim>\<open>xcom_pull\<close> returns and the table as it is. The
  \<^verbatim>\<open>ValueError\<close> of line 120 is raised inside the \<^verbatim>\<open>try\<close>, so the handler of lines
  157-160 logs it and raises an \<^verbatim>\<open>Exception\<close> with its message; so it does with an
  exception of the count query.
\<close>

definition insert_book_data_into_postgres ::
  "db_env \<Rightarrow> book list option \<Rightarrow> book_table \<Rightarrow> py_return result \<times> insert_state" where
  "insert_book_data_into_postgres env book_data t =
     (if no_book_data book_data then
        (Inl (Exception (error_msg ''No book data found in XCom'')),
         \<lparr>table = t, inserted_count = 0,
          log = [OperationError (error_msg ''No book data found in XCom'')]\<rparr>)
      else
        (let books = get_or book_data [];
             s = insert_loop (run_raises env) 0 books
                   \<lparr>table = t, inserted_count = 0, log = [Attempting (length books)]\<rparr>;
             s' = s\<lparr>log := log s @ [Processed (inserted_count s)]\<rparr>
         in case get_first_raises env of
              None \<Rightarrow> (Inr PyNone, s'\<lparr>log := log s' @ [TotalBooks (length (table s'))]\<rparr>)
            | Some m \<Rightarrow>
                (Inl (Exception (error_msg m)),
                 s'\<lparr>log := log s' @ [OperationError (error_msg m)]\<rparr>)))"

section \<open>The DAG (lines 174-221)\<close>

text \<open>
  One run: \<^verbatim>\<open>create_table_task >> fetch_book_data_task >> insert_book_data_task\<close>. A task
  that raises fails the run and the tasks after it do not start (the retries of
  \<^verbatim>\<open>default_args\<close> call the same function again and are the scheduler's). The result is
  what the last task that ran returned and the table the run leaves.
\<close>

definition dag_run ::
  "('n \<Rightarrow> string) \<Rightarrow> (int \<Rightarrow> book list result) \<Rightarrow> (request \<Rightarrow> 'n api_outcome) \<Rightarrow> db_env
     \<Rightarrow> book_table \<Rightarrow> py_return result \<times> book_table" where
  "dag_run str_of generate_sample_book_data api env t =
     (let t0 = create_table t in
      case fetch_book_data_task str_of generate_sample_book_data api of
        Inl e \<Rightarrow> (Inl e, t0)
      | Inr final_books \<Rightarrow>
          (case insert_book_data_into_postgres env (Some final_books) t0 of
             (r, s) \<Rightarrow> (r, table s)))"

section \<open>Notions used in the statements\<close>

text \<open>The length bounds of a \<open>BookRecord\<close> (section 3 of the specification).\<close>

definition within_limits :: "book \<Rightarrow> bool" where
  "within_limits b \<longleftrightarrow>
     length (title b) \<le> 200 \<and> length (author b) \<le> 200 \<and>
     length (price b) \<le> 50 \<and> length (rating b) \<le> 50"

text \<open>The books of a batch whose statement does not raise, and those whose statement
  does, \<open>i\<close> being the number of the first statement.\<close>

fun kept :: "(nat \<Rightarrow> bool) \<Rightarrow> nat \<Rightarrow> 'a list \<Rightarrow> 'a list" where
  "kept raises i [] = []"
| "kept raises i (b # bs) =
     (if raises i then kept raises (Suc i) bs else b # kept raises (Suc i) bs)"

fun refused :: "(nat \<Rightarrow> bool) \<Rightarrow> nat \<Rightarrow> 'a list \<Rightarrow> 'a list" where
  "refused raises i [] = []"
| "refused raises i (b # bs) =
     (if raises i then b # refused raises (Suc i) bs else refused raises (Suc i) bs)"

text \<open>What the \<^verbatim>\<open>DO UPDATE SET\<close> of one book, and of a list of books in order, does to
  one row.\<close>

definition overwrite :: "book \<Rightarrow> row \<Rightarrow> row" where
  "overwrite b r =
     (if row_title r = title b
      then r\<lparr>row_authors := author b, row_price := price b, row_rating := rating b\<rparr>
      else r)"

definition overwrite_all :: "book list \<Rightarrow> row \<Rightarrow> row" where
  "overwrite_all bs r = fold overwrite bs r"

text \<open>The titles in the errors that line 147 logged.\<close>

primrec logged_failures :: "log_event list \<Rightarrow> string list" where
  "logged_failures [] = []"
| "logged_failures (e # es) =
     (case e of InsertError t \<Rightarrow> t # logged_failures es | _ \<Rightarrow> logged_failures es)"

text \<open>The table that a call of the insert task leaves.\<close>

definition table_after :: "db_env \<Rightarrow> book list option \<Rightarrow> book_table \<Rightarrow> book_table" where
  "table_after env book_data t = table (snd (insert_book_data_into_postgres env book_data t))"

text \<open>The derivation as the specification words it: formatted when the book is for sale
  and both the amount and the currency exist, \<open>Free\<close> when it is free, \<open>N/A\<close> in every
  other case.\<close>

definition price_as_specified :: "('n \<Rightarrow> string) \<Rightarrow> 'n sale_info \<Rightarrow> string" where
  "price_as_specified str_of sale =
     (let otherwise = (if saleability sale = Some ''FREE'' then ''Free'' else ''N/A'') in
      case (if saleability sale = Some ''FOR_SALE'' then retailPrice sale else None) of
        None \<Rightarrow> otherwise
      | Some p \<Rightarrow>
          (case (amount p, currencyCode p) of
             (Some a, Some c) \<Rightarrow> str_of a @ '' '' @ c
           | _ \<Rightarrow> otherwise))"

section \<open>Concrete inputs\<close>

text \<open>In the concrete inputs a JSON number is given by its rendering, so \<open>str_of\<close> is the
  identity. One item of a response: a book for sale whose price carries no currency
  code.\<close>

definition sample_item :: "string item" where
  "sample_item =
     \<lparr>volumeInfo = Some \<lparr>volume_title = Some ''Kubernetes in Action'',
                          authors = Some [''Marko Luksa''],
                          averageRating = Some ''4.5'', ratingsCount = Some ''12''\<rparr>,
      saleInfo = Some \<lparr>saleability = Some ''FOR_SALE'',
                        retailPrice = Some \<lparr>amount = Some ''39.99'', currencyCode = None,
                                            other_keys = []\<rparr>\<rparr>\<rparr>"

definition sample_book :: book where
  "sample_book =
     \<lparr>title = ''Kubernetes in Action'', author = ''Marko Luksa'',
      price = ''39.99 $'', rating = ''4.5/5 (12 reviews)''\<rparr>"

text \<open>Two books whose titles have 201 characters and differ in the last one only.\<close>

definition long_a :: book where
  "long_a =
     \<lparr>title = replicate 200 (CHR ''a'') @ ''x'', author = ''Ann'',
      price = ''N/A'', rating = ''N/A''\<rparr>"

definition long_b :: book where
  "long_b =
     \<lparr>title = replicate 200 (CHR ''a'') @ ''y'', author = ''Bob'',
      price = ''Free'', rating = ''N/A''\<rparr>"

text \<open>A database on which no statement raises, and one on which the second statement
  of a batch does.\<close>

definition env_ok :: db_env where
  "env_ok = \<lparr>run_raises = (\<lambda>i. False), get_first_raises = None\<rparr>"

definition env_second_raises :: db_env where
  "env_second_raises = \<lparr>run_raises = (\<lambda>i. i = 1), get_first_raises = None\<rparr>"

definition old_row :: row where
  "old_row =
     \<lparr>row_title = ''Designing Data-Intensive Applications'', row_authors = ''Martin Kleppmann'',
      row_price = ''N/A'', row_rating = ''N/A''\<rparr>"

section \<open>Slicing, deduplication and truncation\<close>


lemma slice_to_Nil [simp]: "slice_to [] n = []"
  by (simp add: slice_to_def)

lemma slice_to_is_take: "\<exists>k. slice_to xs n = take k xs"
  by (auto simp: slice_to_def)

lemma length_slice_to: "0 \<le> n \<Longrightarrow> length (slice_to xs n) \<le> nat n"
  by (simp add: slice_to_def)

lemma slice_to_all: "0 \<le> n \<Longrightarrow> length xs \<le> nat n \<Longrightarrow> slice_to xs n = xs"
  by (simp add: slice_to_def)

lemma slice_to_nonempty: "0 < n \<Longrightarrow> xs \<noteq> [] \<Longrightarrow> slice_to xs n \<noteq> []"
  by (cases xs) (auto simp: slice_to_def)

lemma set_slice_to: "set (slice_to xs n) \<subseteq> set xs"
  by (auto simp: slice_to_def dest: in_set_takeD)

lemma set_drop_seen: "set (drop_seen seen bs) \<subseteq> set bs"
  by (induction bs arbitrary: seen) auto

lemma drop_seen_titles: "\<forall>b\<in>set (drop_seen seen bs). title b \<notin> set seen"
proof (induction bs arbitrary: seen)
  case Nil
  show ?case by simp
next
  case (Cons a bs)
  show ?case
    using Cons.IH[of seen] Cons.IH[of "title a # seen"] by auto
qed

lemma distinct_drop_seen: "distinct (map title (drop_seen seen bs))"
  using drop_seen_titles by (induction bs arbitrary: seen) fastforce+

lemma drop_seen_id:
  "distinct (map title bs) \<Longrightarrow> set (map title bs) \<inter> set seen = {} \<Longrightarrow> drop_seen seen bs = bs"
  by (induction bs arbitrary: seen) auto

lemma drop_duplicates_nonempty: "bs \<noteq> [] \<Longrightarrow> drop_duplicates bs \<noteq> []"
  by (cases bs) (auto simp: drop_duplicates_def)

lemma distinct_drop_duplicates: "distinct (map title (drop_duplicates bs))"
  by (simp add: drop_duplicates_def distinct_drop_seen)

lemma drop_duplicates_id: "distinct (map title bs) \<Longrightarrow> drop_duplicates bs = bs"
  by (simp add: drop_duplicates_def drop_seen_id)

lemma length_drop_duplicates: "length (drop_duplicates bs) \<le> length bs"
proof -
  have "length (drop_seen seen bs) \<le> length bs" for seen
    by (induction bs arbitrary: seen) (auto simp: le_SucI)
  then show ?thesis by (simp add: drop_duplicates_def)
qed

lemma within_limits_clean_fields: "within_limits (clean_fields b)"
  by (simp add: within_limits_def clean_fields_def)

lemma clean_fields_id: "within_limits b \<Longrightarrow> clean_fields b = b"
  by (simp add: within_limits_def clean_fields_def)

lemma normalize_within_limits: "b \<in> set (normalize_books bs n) \<Longrightarrow> within_limits b"
  by (auto simp: normalize_books_def within_limits_clean_fields split: if_splits)

lemma length_normalize: "0 \<le> n \<Longrightarrow> length (normalize_books bs n) \<le> nat n"
  by (simp add: normalize_books_def length_slice_to)

lemma normalize_nonempty: "0 < n \<Longrightarrow> bs \<noteq> [] \<Longrightarrow> normalize_books bs n \<noteq> []"
  by (simp add: normalize_books_def slice_to_nonempty drop_duplicates_nonempty)

lemma normalize_id:
  assumes "0 \<le> n" "length bs \<le> nat n" "distinct (map title bs)" "\<forall>b\<in>set bs. within_limits b"
  shows "normalize_books bs n = bs"
proof -
  have "map clean_fields bs = bs"
    using assms(4) by (simp add: map_idI clean_fields_id)
  then show ?thesis
    using assms by (simp add: normalize_books_def drop_duplicates_id slice_to_all)
qed

lemma normalize_fixed_point:
  assumes "0 \<le> n" "distinct (map title (normalize_books bs n))"
  shows "normalize_books (normalize_books bs n) n = normalize_books bs n"
  using assms by (intro normalize_id) (auto simp: length_normalize normalize_within_limits)

lemma normalize_distinct_short:
  assumes "\<forall>b\<in>set bs. length (title b) \<le> 200"
  shows "distinct (map title (normalize_books bs n))"
proof (cases "bs = []")
  case True
  then show ?thesis by (simp add: normalize_books_def)
next
  case False
  obtain k where k: "slice_to (drop_duplicates bs) n = take k (drop_duplicates bs)"
    using slice_to_is_take by blast
  have sub: "set (take k (drop_duplicates bs)) \<subseteq> set bs"
    using set_drop_seen[of "[]" bs] by (auto simp: drop_duplicates_def dest: in_set_takeD)
  have e: "map title (map clean_fields (take k (drop_duplicates bs)))
        = map title (take k (drop_duplicates bs))"
    using sub assms by (auto simp: clean_fields_def)
  have d: "distinct (map title (take k (drop_duplicates bs)))"
    using distinct_drop_duplicates[of bs] by (simp add: take_map[symmetric] distinct_take)
  have n: "normalize_books bs n = map clean_fields (take k (drop_duplicates bs))"
    using False k by (simp add: normalize_books_def)
  show ?thesis
    unfolding n e by (rule d)
qed

section \<open>The fetch task: which branch returns what\<close>


lemma try_block_cases:
  "try_block str_of gen api n = gen n \<or>
   (\<exists>its. api (build_request n) = Response 200 (Json its) \<and>
      try_block str_of gen api n = Inr (map (parse_item str_of) (slice_to (get_or its []) n)))"
  by (auto simp: try_block_def split: api_outcome.splits body.splits sum.splits)

lemma fetch_unbound_degraded:
  assumes "\<forall>its. api (build_request n) = Response 200 (Json its) \<longrightarrow> slice_to (get_or its []) n = []"
  shows "fetch_books_from_google_api str_of unbound_generate_sample_book_data api n
         = Inl (NameError ''generate_sample_book_data'')"
  using assms
  by (auto simp: fetch_books_from_google_api_def try_block_def safety_net_def
      unbound_generate_sample_book_data_def split: api_outcome.splits body.splits)

lemma fetch_degraded_with_generator:
  assumes deg: "\<forall>its. api (build_request n) = Response 200 (Json its) \<longrightarrow> slice_to (get_or its []) n = []"
    and gen: "gen n = Inr bs"
  shows "fetch_books_from_google_api str_of gen api n = Inr (normalize_books bs n)"
  using assms
  by (auto simp: fetch_books_from_google_api_def try_block_def safety_net_def normalize_books_def
      split: api_outcome.splits body.splits)

lemma fetch_returns_generated:
  assumes deg: "\<forall>its. api (build_request n) = Response 200 (Json its) \<longrightarrow> slice_to (get_or its []) n = []"
    and gen: "gen n = Inr bs"
    and n: "0 \<le> n" "length bs = nat n"
    and wf: "distinct (map title bs)" "\<forall>b\<in>set bs. within_limits b"
  shows "fetch_books_from_google_api str_of gen api n = Inr bs"
proof -
  have "normalize_books bs n = bs"
    using n wf by (intro normalize_id) simp_all
  then show ?thesis
    using deg gen by (simp add: fetch_degraded_with_generator)
qed

lemma fetch_result:
  "fetch_books_from_google_api str_of gen api n = Inr xs \<Longrightarrow> \<exists>bs. xs = normalize_books bs n"
  by (auto simp: fetch_books_from_google_api_def split: sum.splits)

lemma fetch_parsed:
  assumes "api (build_request n) = Response 200 (Json its)" "slice_to (get_or its []) n \<noteq> []"
  shows "fetch_books_from_google_api str_of gen api n
         = Inr (normalize_books (map (parse_item str_of) (slice_to (get_or its []) n)) n)"
  using assms by (simp add: fetch_books_from_google_api_def try_block_def safety_net_def)

section \<open>The insert loop and the upsert\<close>

lemma insert_loop_table:
  "table (insert_loop raises i bs s) = fold upsert (kept raises i bs) (table s)"
  by (induction raises i bs s rule: insert_loop.induct) simp_all

lemma insert_loop_count:
  "inserted_count (insert_loop raises i bs s) = inserted_count s + length (kept raises i bs)"
  by (induction raises i bs s rule: insert_loop.induct) simp_all

lemma insert_loop_log:
  "log (insert_loop raises i bs s) = log s @ map (\<lambda>b. InsertError (title b)) (refused raises i bs)"
  by (induction raises i bs s rule: insert_loop.induct) simp_all

lemma kept_none_raise: "\<forall>j<length bs. \<not> raises (i + j) \<Longrightarrow> kept raises i bs = bs"
proof (induction bs arbitrary: i)
  case Nil
  show ?case by simp
next
  case (Cons b bs)
  have "\<not> raises i" using Cons.prems by force
  moreover have "\<forall>j<length bs. \<not> raises (Suc i + j)"
    using Cons.prems by force
  ultimately show ?case using Cons.IH[of "Suc i"] by simp
qed

lemma refused_none_raise: "\<forall>j<length bs. \<not> raises (i + j) \<Longrightarrow> refused raises i bs = []"
proof (induction bs arbitrary: i)
  case Nil
  show ?case by simp
next
  case (Cons b bs)
  have "\<not> raises i" using Cons.prems by force
  moreover have "\<forall>j<length bs. \<not> raises (Suc i + j)"
    using Cons.prems by force
  ultimately show ?case using Cons.IH[of "Suc i"] by simp
qed

lemma one_raises:
  "k < length bs \<Longrightarrow> \<forall>j<length bs. raises (i + j) \<longleftrightarrow> j = k \<Longrightarrow>
   kept raises i bs = take k bs @ drop (Suc k) bs \<and> refused raises i bs = [bs ! k]"
proof (induction bs arbitrary: i k)
  case Nil
  then show ?case by simp
next
  case (Cons b bs)
  show ?case
  proof (cases k)
    case 0
    have "raises i" using Cons.prems 0 by force
    moreover have "\<forall>j<length bs. \<not> raises (Suc i + j)"
      using Cons.prems 0 by force
    ultimately show ?thesis
      using 0 kept_none_raise[of bs raises "Suc i"] refused_none_raise[of bs raises "Suc i"] by simp
  next
    case (Suc k')
    have "\<not> raises i" using Cons.prems Suc by force
    moreover have "k' < length bs" using Cons.prems Suc by simp
    moreover have "\<forall>j<length bs. raises (Suc i + j) \<longleftrightarrow> j = k'"
      using Cons.prems Suc by force
    ultimately show ?thesis
      using Suc Cons.IH[of k' "Suc i"] by simp
  qed
qed

lemma titles_upsert:
  "map row_title (upsert b t) =
     (if title b \<in> row_title ` set t then map row_title t else map row_title t @ [title b])"
  by (auto simp: upsert_def)

lemma upsert_overwrite: "title b \<in> row_title ` set t \<Longrightarrow> upsert b t = map (overwrite b) t"
  by (simp add: upsert_def overwrite_def)

lemma title_overwrite [simp]: "row_title (overwrite b r) = row_title r"
  by (simp add: overwrite_def)

lemma title_overwrite_all [simp]: "row_title (overwrite_all bs r) = row_title r"
  unfolding overwrite_all_def by (induction bs arbitrary: r) simp_all

lemma titles_fold_upsert: "\<exists>ys. map row_title (fold upsert bs t) = map row_title t @ ys"
proof (induction bs arbitrary: t)
  case Nil
  show ?case by simp
next
  case (Cons b bs)
  obtain ys where "map row_title (fold upsert bs (upsert b t)) = map row_title (upsert b t) @ ys"
    using Cons.IH by blast
  then show ?case by (auto simp: titles_upsert)
qed

lemma distinct_upsert: "distinct (map row_title t) \<Longrightarrow> distinct (map row_title (upsert b t))"
  by (auto simp: titles_upsert)

lemma fold_upsert_snoc: "fold upsert (bs @ [b]) t = upsert b (fold upsert bs t)"
  by simp

lemma titles_present: "title ` set bs \<subseteq> row_title ` set (fold upsert bs t)"
proof (induction bs rule: rev_induct)
  case Nil
  show ?case by simp
next
  case (snoc b bs)
  have "set (map row_title (upsert b T)) = insert (title b) (set (map row_title T))" for T
    by (auto simp: titles_upsert)
  then have "row_title ` set (upsert b T) = insert (title b) (row_title ` set T)" for T
    by simp
  then show ?case using snoc by auto
qed

lemma all_overwrites:
  "title ` set bs \<subseteq> row_title ` set t \<Longrightarrow> fold upsert bs t = map (overwrite_all bs) t"
proof (induction bs arbitrary: t)
  case Nil
  show ?case by (simp add: overwrite_all_def)
next
  case (Cons b bs)
  have b: "title b \<in> row_title ` set t" using Cons.prems by simp
  have "row_title ` set (map (overwrite b) t) = row_title ` set t"
    by (simp add: image_image)
  then have "title ` set bs \<subseteq> row_title ` set (map (overwrite b) t)"
    using Cons.prems by simp
  then have "fold upsert bs (map (overwrite b) t) = map (overwrite_all bs) (map (overwrite b) t)"
    by (rule Cons.IH)
  then show ?case
    using b by (simp add: upsert_overwrite overwrite_all_def comp_def)
qed

lemma rows_upsert:
  assumes r: "r \<in> set (upsert b t)"
  shows "(row_title r = title b \<and> row_authors r = author b \<and> row_price r = price b \<and> row_rating r = rating b)
     \<or> (row_title r \<noteq> title b \<and> r \<in> set t)"
proof (cases "title b \<in> row_title ` set t")
  case True
  then have "r \<in> set (map (overwrite b) t)"
    using r by (simp add: upsert_overwrite)
  then show ?thesis
    by (auto simp: overwrite_def)
next
  case False
  have "r \<in> set t \<or> r = \<lparr>row_title = title b, row_authors = author b,
                  row_price = price b, row_rating = rating b\<rparr>"
    using False r by (auto simp: upsert_def)
  then show ?thesis
    using False by force
qed

lemma settled: "r \<in> set (fold upsert bs t) \<Longrightarrow> overwrite_all bs r = r"
proof (induction bs arbitrary: r rule: rev_induct)
  case Nil
  show ?case by (simp add: overwrite_all_def)
next
  case (snoc b bs)
  have step: "overwrite_all (bs @ [b]) r = overwrite b (overwrite_all bs r)"
    by (simp add: overwrite_all_def)
  from snoc.prems have "r \<in> set (upsert b (fold upsert bs t))" by simp
  then consider
    (hit) "row_title r = title b" "row_authors r = author b" "row_price r = price b" "row_rating r = rating b"
    | (miss) "row_title r \<noteq> title b" "r \<in> set (fold upsert bs t)"
    using rows_upsert by blast
  then show ?case
  proof cases
    case hit
    have "row_title (overwrite_all bs r) = title b" using hit by simp
    then have "overwrite b (overwrite_all bs r) =
      (overwrite_all bs r)\<lparr>row_authors := author b, row_price := price b, row_rating := rating b\<rparr>"
      by (simp add: overwrite_def)
    also have "\<dots> = r"
      using hit by (intro row.equality) simp_all
    finally show ?thesis using step by simp
  next
    case miss
    then show ?thesis using step snoc.IH[of r] by (simp add: overwrite_def)
  qed
qed

lemma fold_upsert_twice: "fold upsert bs (fold upsert bs t) = fold upsert bs t"
proof -
  have "fold upsert bs (fold upsert bs t) = map (overwrite_all bs) (fold upsert bs t)"
    by (rule all_overwrites) (rule titles_present)
  also have "\<dots> = fold upsert bs t"
    by (rule map_idI) (rule settled)
  finally show ?thesis .
qed

section \<open>The insert task: what a call leaves\<close>

lemma table_after_fold:
  "table_after env book_data t = fold upsert (kept (run_raises env) 0 (get_or book_data [])) t"
proof (cases "no_book_data book_data")
  case True
  then have "get_or book_data [] = []"
    by (auto simp: no_book_data_def get_or_def)
  with True show ?thesis
    by (simp add: table_after_def insert_book_data_into_postgres_def)
next
  case False
  then show ?thesis
    by (simp add: table_after_def insert_book_data_into_postgres_def Let_def insert_loop_table
        split: option.split)
qed

lemma insert_counts:
  "\<not> no_book_data book_data \<Longrightarrow>
   inserted_count (snd (insert_book_data_into_postgres env book_data t))
     = length (kept (run_raises env) 0 (get_or book_data []))"
  by (simp add: insert_book_data_into_postgres_def Let_def insert_loop_count split: option.split)

lemma logged_failures_append [simp]:
  "logged_failures (xs @ ys) = logged_failures xs @ logged_failures ys"
  by (induction xs) (simp_all split: log_event.split)

lemma logged_failures_errors [simp]:
  "logged_failures (map (\<lambda>b. InsertError (title b)) bs) = map title bs"
  by (induction bs) simp_all

lemma insert_logs:
  "\<not> no_book_data book_data \<Longrightarrow>
   logged_failures (log (snd (insert_book_data_into_postgres env book_data t)))
     = map title (refused (run_raises env) 0 (get_or book_data []))"
  by (simp add: insert_book_data_into_postgres_def Let_def insert_loop_log split: option.split)

lemma insert_returns:
  "\<not> no_book_data book_data \<Longrightarrow> get_first_raises env = None \<Longrightarrow>
   fst (insert_book_data_into_postgres env book_data t) = Inr PyNone"
  by (simp add: insert_book_data_into_postgres_def Let_def)

section \<open>The claims\<close>

subsection \<open>Fallback of the fetch task\<close>

text \<open>
  C1: for every count and every failure of the API (network exception, status other
  than 200, parse exception, empty item list), the fetch never raises and returns count
  well-formed records of the fallback generator. The module does not do this: the
  generator it calls on each of these paths is defined nowhere, so the call raises
  \<^verbatim>\<open>NameError\<close>, inside a handler or after the \<^verbatim>\<open>try\<close>, and the task dies with it. Here the
  task of the DAG on a response with status 500.
\<close>

theorem fetch_task_dies_on_status_500:
  "fetch_book_data_task (\<lambda>s::string. s) unbound_generate_sample_book_data
     (\<lambda>r. Response 500 (Json None))
   = Inl (NameError ''generate_sample_book_data'')"
  by (simp add: fetch_book_data_task_def fetch_books_from_google_api_def try_block_def
      unbound_generate_sample_book_data_def)

subsection \<open>Valid responses\<close>

text \<open>
  What holds on a response with status 200 and a JSON body, for a positive count and
  any fallback generator: whatever the fetch returns has at most count records, each
  within the length bounds (title and author at most 200 characters, price and rating
  at most 50); it does return when the body has at least one item; and the request, the
  only one the result depends on, asks for at most 40 results whatever the count.
\<close>

lemma fetch_valid_response_bounded:
  "maxResults (build_request n) \<le> 40 \<and>
   (\<forall>api'. api' (build_request n) = api (build_request n) \<longrightarrow>
      fetch_books_from_google_api str_of gen api' n = fetch_books_from_google_api str_of gen api n) \<and>
   (0 < n \<and> api (build_request n) = Response 200 (Json its) \<longrightarrow>
     (\<forall>xs. fetch_books_from_google_api str_of gen api n = Inr xs \<longrightarrow>
        length xs \<le> nat n \<and> (\<forall>b\<in>set xs. within_limits b)) \<and>
     (get_or its [] \<noteq> [] \<longrightarrow>
        (\<exists>xs. fetch_books_from_google_api str_of gen api n = Inr xs)))"
proof -
  have req: "maxResults (build_request n) \<le> 40"
    by (simp add: build_request_def)
  have once: "fetch_books_from_google_api str_of gen api' n = fetch_books_from_google_api str_of gen api n"
    if "api' (build_request n) = api (build_request n)" for api'
    using that by (simp add: fetch_books_from_google_api_def try_block_def)
  have bound: "length xs \<le> nat n \<and> (\<forall>b\<in>set xs. within_limits b)"
    if pos: "0 < n" and res: "fetch_books_from_google_api str_of gen api n = Inr xs" for xs
  proof -
    obtain bs where "xs = normalize_books bs n"
      using res fetch_result by blast
    then show ?thesis
      using pos by (auto simp: length_normalize normalize_within_limits)
  qed
  have returns: "\<exists>xs. fetch_books_from_google_api str_of gen api n = Inr xs"
    if pos: "0 < n" and ok: "api (build_request n) = Response 200 (Json its)"
      and ne: "get_or its [] \<noteq> []"
  proof -
    have "slice_to (get_or its []) n \<noteq> []"
      using pos ne by (simp add: slice_to_nonempty)
    then show ?thesis
      using ok fetch_parsed by blast
  qed
  show ?thesis
    using req once bound returns by blast
qed

lemma fetch_valid_response_bounded_example:
  "(0::int) < 25 \<and> get_or (Some [sample_item]) [] \<noteq> [] \<and>
   (\<exists>xs. fetch_books_from_google_api (\<lambda>s. s) unbound_generate_sample_book_data
            (\<lambda>r. Response 200 (Json (Some [sample_item]))) 25 = Inr xs
         \<and> length xs \<le> 25 \<and> list_all within_limits xs)"
proof -
  let ?api = "\<lambda>r::request. Response 200 (Json (Some [sample_item]))"
  have pos: "(0::int) < 25" by simp
  have ne: "get_or (Some [sample_item]) [] \<noteq> []" by (simp add: get_or_def)
  have hyp: "(0::int) < 25 \<and> ?api (build_request 25) = Response 200 (Json (Some [sample_item]))"
    by simp
  note c = fetch_valid_response_bounded
    [of 25 ?api "\<lambda>s. s" unbound_generate_sample_book_data "Some [sample_item]",
      THEN conjunct2, THEN conjunct2, THEN mp, OF hyp]
  from c[THEN conjunct2, THEN mp, OF ne] obtain xs where
    xs: "fetch_books_from_google_api (\<lambda>s. s) unbound_generate_sample_book_data ?api 25 = Inr xs"
    by (rule exE)
  from c[THEN conjunct1, THEN spec, THEN mp, OF xs]
  have b: "length xs \<le> nat 25 \<and> (\<forall>b\<in>set xs. within_limits b)" .
  have "length xs \<le> 25 \<and> list_all within_limits xs"
    using b by (simp add: list_all_iff)
  with xs have "\<exists>xs. fetch_books_from_google_api (\<lambda>s. s) unbound_generate_sample_book_data
            ?api 25 = Inr xs \<and> length xs \<le> 25 \<and> list_all within_limits xs"
    by (intro exI[of _ xs] conjI) simp_all
  with pos ne show ?thesis
    by (intro conjI)
qed

text \<open>
  C9: for every response with status 200 and a JSON body and every count, the fetch
  returns at most count records, each within the length bounds, and its one request
  asks for at most 40 results. The request of the DAG's task does ask for 25, but on a
  body without items, the \<^verbatim>\<open>items\<close> key absent or its list empty, the module returns
  nothing: the list of books stays empty, line 87 calls the fallback generator, which
  is defined nowhere, and the \<^verbatim>\<open>NameError\<close> leaves the function.
\<close>

theorem fetch_task_dies_on_empty_items:
  "maxResults (build_request 25) = 25
   \<and> fetch_book_data_task (\<lambda>s::string. s) unbound_generate_sample_book_data
         (\<lambda>r. Response 200 (Json None))
       = Inl (NameError ''generate_sample_book_data'')
   \<and> fetch_book_data_task (\<lambda>s::string. s) unbound_generate_sample_book_data
         (\<lambda>r. Response 200 (Json (Some [])))
       = Inl (NameError ''generate_sample_book_data'')"
  by (simp add: fetch_book_data_task_def fetch_books_from_google_api_def try_block_def
      safety_net_def unbound_generate_sample_book_data_def build_request_def get_or_def)

subsection \<open>The hand-over from the fetch to the insert\<close>

text \<open>
  C10: in any run in which the fallback generator returns at least one record, the
  list the fetch hands to the insert is not empty, so the insert does not take its
  empty-input branch (line 120) and reaches line 122; and the safety net of lines 85-88
  calls the fallback exactly when the list left by the \<^verbatim>\<open>try\<close> is empty. The count is
  positive, as in the DAG, which passes 25.
\<close>

theorem fetch_hands_over_books:
  assumes pos: "0 < n" and gen: "gen n = Inr bs" and ne: "bs \<noteq> []"
  shows "\<exists>xs. fetch_books_from_google_api str_of gen api n = Inr xs \<and> xs \<noteq> [] \<and>
           \<not> no_book_data (Some xs) \<and>
           (\<forall>env t. \<exists>rest.
              log (snd (insert_book_data_into_postgres env (Some xs) t))
                = Attempting (length xs) # rest) \<and>
           safety_net gen n [] = gen n \<and>
           (\<forall>books. books \<noteq> [] \<longrightarrow> safety_net gen n books = Inr books)"
proof -
  have net: "safety_net gen n [] = gen n"
    and keep: "books \<noteq> [] \<Longrightarrow> safety_net gen n books = Inr books" for books
    by (simp_all add: safety_net_def)
  obtain books where tb: "try_block str_of gen api n = Inr books"
    using try_block_cases[of str_of gen api n] gen by auto
  define books' where "books' = (if books = [] then bs else books)"
  have sn: "safety_net gen n books = Inr books'" and ne': "books' \<noteq> []"
    using gen ne by (simp_all add: safety_net_def books'_def)
  define xs where "xs = normalize_books books' n"
  have fetch: "fetch_books_from_google_api str_of gen api n = Inr xs"
    by (simp add: fetch_books_from_google_api_def tb sn xs_def)
  have xs: "xs \<noteq> []"
    unfolding xs_def using pos ne' by (rule normalize_nonempty)
  have nb: "\<not> no_book_data (Some xs)"
    using xs by (simp add: no_book_data_def)
  have lg: "\<exists>rest. log (snd (insert_book_data_into_postgres env (Some xs) t))
                = Attempting (length xs) # rest" for env t
    using nb
    by (simp add: insert_book_data_into_postgres_def Let_def insert_loop_log get_or_def
        split: option.split)
  show ?thesis
    using fetch xs nb lg net keep by blast
qed

theorem fetch_hands_over_books_witness:
  "(0::int) < 25 \<and> sample_book # [] \<noteq> [] \<and>
   (\<exists>xs. fetch_books_from_google_api (\<lambda>s::string. s) (\<lambda>n. Inr [sample_book])
            (\<lambda>r. Response 500 (Json None)) 25 = Inr xs \<and> xs \<noteq> [])"
proof -
  have pos: "(0::int) < 25" by simp
  have g: "(\<lambda>n::int. (Inr [sample_book] :: book list result)) 25 = Inr [sample_book]"
    by simp
  have ne: "[sample_book] \<noteq> []" by simp
  note th = fetch_hands_over_books
      [of 25 "\<lambda>n. Inr [sample_book]" "[sample_book]" "\<lambda>s::string. s"
          "\<lambda>r. Response 500 (Json None)", OF pos g ne]
  from th obtain xs where
    "fetch_books_from_google_api (\<lambda>s::string. s) (\<lambda>n. Inr [sample_book])
       (\<lambda>r. Response 500 (Json None)) 25 = Inr xs" and "xs \<noteq> []"
    by blast
  then have "\<exists>xs. fetch_books_from_google_api (\<lambda>s::string. s) (\<lambda>n. Inr [sample_book])
            (\<lambda>r. Response 500 (Json None)) 25 = Inr xs \<and> xs \<noteq> []"
    by blast
  with pos ne show ?thesis
    by (intro conjI)
qed

subsection \<open>Empty input of the insert\<close>

text \<open>
  C4: the insert called on an empty list (or on nothing) raises the empty-input error,
  the \<^verbatim>\<open>ValueError\<close> of line 120 as the handler of lines 157-160 raises it again, and
  runs no statement: the table is as it was and nothing was counted.
\<close>

theorem insert_empty_input_raises:
  "insert_book_data_into_postgres env (Some []) t =
     (Inl (Exception ''Error in database operation: No book data found in XCom''),
      \<lparr>table = t, inserted_count = 0,
       log = [OperationError ''Error in database operation: No book data found in XCom'']\<rparr>)
   \<and> insert_book_data_into_postgres env None t =
       insert_book_data_into_postgres env (Some []) t
   \<and> table_after env (Some []) t = t"
  by (simp add: insert_book_data_into_postgres_def no_book_data_def error_msg_def table_after_def)

subsection \<open>Titles after cleaning\<close>

text \<open>
  C5: no two records of a cleaned batch have the same title. The code deduplicates on
  the full title (line 95) and truncates the title to 200 characters afterwards (line
  99), so two titles that differ only after their 200th character both survive and come
  out equal. (When no title is longer than 200 characters the titles of the output are
  distinct: \<open>normalize_distinct_short\<close>.)
\<close>

theorem cleaning_leaves_equal_titles:
  "map title (normalize_books [long_a, long_b] 25)
     = [replicate 200 (CHR ''a''), replicate 200 (CHR ''a'')]
   \<and> \<not> distinct (map title (normalize_books [long_a, long_b] 25))"
  by (simp add: normalize_books_def drop_duplicates_def slice_to_def clean_fields_def
      long_a_def long_b_def)

text \<open>
  C6: cleaning its own output changes nothing. On the batch above the first pass keeps
  both books with equal titles, and the second pass drops the second of them. (When
  the titles of the output are distinct, and so when no title is longer than 200
  characters, the output is a fixed point: \<open>normalize_fixed_point\<close>.)
\<close>

theorem cleaning_twice_drops_a_book:
  "normalize_books [long_a, long_b] 25 = [clean_fields long_a, clean_fields long_b]
   \<and> normalize_books (normalize_books [long_a, long_b] 25) 25 = [clean_fields long_a]
   \<and> normalize_books (normalize_books [long_a, long_b] 25) 25 \<noteq> normalize_books [long_a, long_b] 25"
  by (simp add: normalize_books_def drop_duplicates_def slice_to_def clean_fields_def
      long_a_def long_b_def)

subsection \<open>The price of an item\<close>

text \<open>
  C8, as stated: a book for sale with an amount and a currency gets \<open>amount currency\<close>,
  a free book gets \<open>Free\<close>, every other item gets \<open>N/A\<close>. The sample item is for sale
  and has an amount and no currency code: line 50 defaults the currency to \<open>$\<close>, so
  its price is not \<open>N/A\<close>.
\<close>

theorem price_without_currency_code:
  "derive_price (\<lambda>s. s) (get_or (saleInfo sample_item) empty_sale_info) = ''39.99 $''
   \<and> price_as_specified (\<lambda>s. s) (get_or (saleInfo sample_item) empty_sale_info) = ''N/A''"
  by (simp add: derive_price_def price_as_specified_def sample_item_def get_or_def truthy_def)

text \<open>
  C8, amended: for a book for sale whose retail price has an amount, the price is the
  amount, a space and the currency code, or \<open>$\<close> when the currency code is absent; for a
  book for sale without a retail price or without an amount it is \<open>N/A\<close>; for a free
  book it is \<open>Free\<close>; for every other sale status, or none, it is \<open>N/A\<close>.
\<close>

theorem derive_price_cases:
  "derive_price str_of sale =
     (if saleability sale = Some ''FOR_SALE'' then
        (case retailPrice sale of
           None \<Rightarrow> ''N/A''
         | Some p \<Rightarrow>
             (case amount p of
                None \<Rightarrow> ''N/A''
              | Some a \<Rightarrow>
                  str_of a @ '' '' @ (case currencyCode p of None \<Rightarrow> ''$'' | Some c \<Rightarrow> c)))
      else if saleability sale = Some ''FREE'' then ''Free''
      else ''N/A'')"
  by (auto simp: derive_price_def get_or_def truthy_def empty_retail_price_def Let_def
      split: option.splits)

theorem derive_price_cases_witness:
  "derive_price (\<lambda>s. s)
     \<lparr>saleability = Some ''FOR_SALE'',
      retailPrice = Some \<lparr>amount = Some ''12.5'', currencyCode = Some ''EUR'', other_keys = []\<rparr>\<rparr>
     = ''12.5 EUR''
   \<and> derive_price (\<lambda>s::string. s) \<lparr>saleability = Some ''FREE'', retailPrice = None\<rparr> = ''Free''
   \<and> derive_price (\<lambda>s::string. s) \<lparr>saleability = Some ''NOT_FOR_SALE'', retailPrice = None\<rparr>
       = ''N/A''"
  by (simp add: derive_price_cases)

subsection \<open>Rows are never deleted by the insert\<close>

text \<open>
  C2, as stated: every row of the table before a run is still there after the run.
  A run whose fetch returns the sample book, on a table that holds one older book:
  the first task of the run drops the table (lines 185-205 and 221), and afterwards the
  table holds the sample book only.
\<close>

theorem dag_run_drops_older_rows:
  "snd (dag_run (\<lambda>s. s) unbound_generate_sample_book_data
          (\<lambda>r. Response 200 (Json (Some [sample_item]))) env_ok [old_row])
     = [\<lparr>row_title = ''Kubernetes in Action'', row_authors = ''Marko Luksa'',
         row_price = ''39.99 $'', row_rating = ''4.5/5 (12 reviews)''\<rparr>]
   \<and> row_title old_row \<notin> row_title ` set
        (snd (dag_run (\<lambda>s. s) unbound_generate_sample_book_data
                (\<lambda>r. Response 200 (Json (Some [sample_item]))) env_ok [old_row]))"
  by (simp add: dag_run_def create_table_def fetch_book_data_task_def
      fetch_books_from_google_api_def try_block_def safety_net_def normalize_books_def
      drop_duplicates_def slice_to_def clean_fields_def parse_item_def derive_price_def
      derive_rating_def truthy_def get_or_def sample_item_def build_request_def
      insert_book_data_into_postgres_def no_book_data_def env_ok_def upsert_def old_row_def)

text \<open>
  C2, amended: the fetch and the insert never delete a row: whatever the insert is
  given and whichever of its statements fail, the titles of the table before it are the
  first titles of the table after it, in the same order. The table does not outlive a
  run, though: every run starts with the task that drops and recreates it, so the table
  a run leaves does not depend on the table it found.
\<close>

theorem insert_keeps_every_row:
  "(\<exists>new. map row_title (table_after env book_data t) = map row_title t @ new) \<and>
   (\<forall>r\<in>set t. \<exists>r'\<in>set (table_after env book_data t). row_title r' = row_title r) \<and>
   create_table t = [] \<and>
   snd (dag_run str_of gen api env t) = snd (dag_run str_of gen api env [])"
proof -
  obtain new where new: "map row_title (table_after env book_data t) = map row_title t @ new"
    unfolding table_after_fold using titles_fold_upsert by blast
  have "row_title ` set t \<subseteq> row_title ` set (table_after env book_data t)"
  proof -
    have "set (map row_title t) \<subseteq> set (map row_title (table_after env book_data t))"
      unfolding new by simp
    then show ?thesis by simp
  qed
  then have "\<forall>r\<in>set t. \<exists>r'\<in>set (table_after env book_data t). row_title r' = row_title r"
    by (metis (no_types, lifting) image_iff subsetD)
  moreover have "snd (dag_run str_of gen api env t) = snd (dag_run str_of gen api env [])"
    by (simp add: dag_run_def create_table_def)
  ultimately show ?thesis
    using new by (simp add: create_table_def)
qed

theorem insert_keeps_every_row_witness:
  "map row_title (table_after env_ok (Some [sample_book]) [old_row])
     = [''Designing Data-Intensive Applications'', ''Kubernetes in Action'']
   \<and> create_table [old_row] = []"
proof -
  note th = insert_keeps_every_row
    [of env_ok "Some [sample_book]" "[old_row]" "\<lambda>s::string. s"
        unbound_generate_sample_book_data "\<lambda>r. Response 500 (Json None)"]
  from th have c: "create_table [old_row] = []"
    by (elim conjE)
  from th obtain new where
    "map row_title (table_after env_ok (Some [sample_book]) [old_row])
       = map row_title [old_row] @ new"
    by (elim conjE exE)
  moreover have "table_after env_ok (Some [sample_book]) [old_row]
    = [old_row, \<lparr>row_title = ''Kubernetes in Action'', row_authors = ''Marko Luksa'',
         row_price = ''39.99 $'', row_rating = ''4.5/5 (12 reviews)''\<rparr>]"
    by (simp add: table_after_fold env_ok_def get_or_def upsert_def sample_book_def old_row_def)
  ultimately show ?thesis
    using c by (simp add: old_row_def)
qed

subsection \<open>One failing record\<close>

text \<open>
  C3, as stated: the insert returns a summary with the fields \<open>inserted_or_updated\<close> and
  \<open>failed\<close>, which reports one failure when one record fails. The function has no
  \<^verbatim>\<open>return\<close> statement and counts successes only: on three books, the second of which
  fails, it returns \<^verbatim>\<open>None\<close>.
\<close>

theorem insert_returns_no_summary:
  "fst (insert_book_data_into_postgres env_second_raises
          (Some [long_a, sample_book, long_b]) []) = Inr PyNone
   \<and> fst (insert_book_data_into_postgres env_second_raises
          (Some [long_a, sample_book, long_b]) [])
       \<noteq> Inr (PySummary \<lparr>inserted_or_updated = 2, failed = 1\<rparr>)"
  by (simp add: insert_book_data_into_postgres_def no_book_data_def env_second_raises_def
      get_or_def Let_def)

text \<open>
  C3, amended: the insert returns nothing; it counts the statements that succeeded in
  \<open>inserted_count\<close>, which it logs (line 150), and logs one error with the title of the
  book for each statement that failed (line 147). If exactly one record of a batch of N
  fails, the other N - 1 are upserted, in order, as if the failing record were not in
  the batch; the count logged is N - 1 and the one error logged names the failing
  record; when the count query succeeds the function returns \<^verbatim>\<open>None\<close>.
\<close>

theorem insert_one_failure:
  assumes k: "k < length bs" and one: "\<forall>i<length bs. run_raises env i \<longleftrightarrow> i = k"
  shows "table_after env (Some bs) t = fold upsert (take k bs @ drop (Suc k) bs) t \<and>
         inserted_count (snd (insert_book_data_into_postgres env (Some bs) t)) = length bs - 1 \<and>
         Processed (length bs - 1) \<in> set (log (snd (insert_book_data_into_postgres env (Some bs) t))) \<and>
         logged_failures (log (snd (insert_book_data_into_postgres env (Some bs) t)))
           = [title (bs ! k)] \<and>
         (get_first_raises env = None \<longrightarrow>
            fst (insert_book_data_into_postgres env (Some bs) t) = Inr PyNone)"
proof -
  have data: "\<not> no_book_data (Some bs)" and g: "get_or (Some bs) [] = bs"
    using k by (auto simp: no_book_data_def get_or_def)
  have "\<forall>j<length bs. run_raises env (0 + j) \<longleftrightarrow> j = k"
    using one by simp
  then have kr: "kept (run_raises env) 0 bs = take k bs @ drop (Suc k) bs"
    and rf: "refused (run_raises env) 0 bs = [bs ! k]"
    using one_raises[OF k, of "run_raises env" 0] by simp_all
  have len: "length (take k bs @ drop (Suc k) bs) = length bs - 1"
    using k by simp
  have cnt: "inserted_count (snd (insert_book_data_into_postgres env (Some bs) t)) = length bs - 1"
    using insert_counts[OF data, of env t] by (simp only: g kr len)
  have "Processed (inserted_count (snd (insert_book_data_into_postgres env (Some bs) t)))
          \<in> set (log (snd (insert_book_data_into_postgres env (Some bs) t)))"
    using data
    by (simp add: insert_book_data_into_postgres_def Let_def split: option.split)
  then have lg: "Processed (length bs - 1)
          \<in> set (log (snd (insert_book_data_into_postgres env (Some bs) t)))"
    by (simp only: cnt)
  have tb: "table_after env (Some bs) t = fold upsert (take k bs @ drop (Suc k) bs) t"
    by (simp only: table_after_fold g kr)
  have fl: "logged_failures (log (snd (insert_book_data_into_postgres env (Some bs) t)))
           = [title (bs ! k)]"
    using insert_logs[OF data, of env t] by (simp add: g rf)
  show ?thesis
    using tb cnt lg fl insert_returns[OF data] by blast
qed

theorem insert_one_failure_witness:
  "(1::nat) < length [long_a, sample_book, long_b] \<and>
   map row_title (table_after env_second_raises (Some [long_a, sample_book, long_b]) [])
     = [title long_a, title long_b] \<and>
   inserted_count (snd (insert_book_data_into_postgres env_second_raises
                          (Some [long_a, sample_book, long_b]) [])) = 2 \<and>
   logged_failures (log (snd (insert_book_data_into_postgres env_second_raises
                                (Some [long_a, sample_book, long_b]) [])))
     = [''Kubernetes in Action'']"
proof -
  let ?bs = "[long_a, sample_book, long_b]"
  have k: "(1::nat) < length ?bs" by simp
  have one: "\<forall>i<length ?bs. run_raises env_second_raises i \<longleftrightarrow> i = 1"
    by (simp add: env_second_raises_def)
  note th = insert_one_failure[of 1 ?bs env_second_raises "[]", OF k one]
  have ne: "title long_a \<noteq> title long_b"
    by (simp add: long_a_def long_b_def)
  have "map row_title (fold upsert [long_a, long_b] []) = [title long_a, title long_b]"
    using ne ne[symmetric] by (simp add: upsert_def)
  then show ?thesis
    using th by (simp add: sample_book_def)
qed

subsection \<open>Upsert\<close>

text \<open>
  C7: an upsert of a book whose title is in the table overwrites, in place, the
  author, price and rating of the row of that title and adds no row (and a table whose
  titles are distinct keeps them distinct); and, the statements succeeding, inserting
  the same list of books a second time leaves the table as the first time left it.
\<close>

theorem upsert_overwrites_and_is_idempotent:
  "(title b \<in> row_title ` set t \<longrightarrow>
      upsert b t = map (overwrite b) t \<and>
      map row_title (upsert b t) = map row_title t \<and>
      (\<forall>r\<in>set (upsert b t).
         if row_title r = title b
         then row_authors r = author b \<and> row_price r = price b \<and> row_rating r = rating b
         else r \<in> set t)) \<and>
   (distinct (map row_title t) \<longrightarrow> distinct (map row_title (upsert b t))) \<and>
   ((\<forall>i. \<not> run_raises env i) \<longrightarrow>
      table_after env (Some [b]) t = upsert b t \<and>
      table_after env (Some bs) (table_after env (Some bs) t) = table_after env (Some bs) t)"
proof -
  have fields: "\<forall>r\<in>set (upsert b t).
         if row_title r = title b
         then row_authors r = author b \<and> row_price r = price b \<and> row_rating r = rating b
         else r \<in> set t"
    using rows_upsert[of _ b t] by auto
  have same: "map row_title (upsert b t) = map row_title t" if "title b \<in> row_title ` set t"
    using that by (simp add: titles_upsert)
  have all: "table_after env (Some cs) u = fold upsert cs u" if "\<forall>i. \<not> run_raises env i" for cs u
    using that by (simp add: table_after_fold get_or_def kept_none_raise)
  have one: "table_after env (Some [b]) t = upsert b t" if "\<forall>i. \<not> run_raises env i"
    using all[OF that, of "[b]" t] by simp
  have twice: "table_after env (Some bs) (table_after env (Some bs) t) = table_after env (Some bs) t"
    if "\<forall>i. \<not> run_raises env i"
    by (simp only: all[OF that] fold_upsert_twice)
  show ?thesis
    using fields same upsert_overwrite[of b t] distinct_upsert[of t b] one twice by blast
qed

theorem upsert_overwrites_and_is_idempotent_witness:
  "title (sample_book\<lparr>price := ''Free''\<rparr>)
     \<in> row_title ` set (table_after env_ok (Some [sample_book]) [old_row]) \<and>
   table_after env_ok (Some [sample_book\<lparr>price := ''Free''\<rparr>])
       (table_after env_ok (Some [sample_book]) [old_row])
     = [old_row, \<lparr>row_title = ''Kubernetes in Action'', row_authors = ''Marko Luksa'',
         row_price = ''Free'', row_rating = ''4.5/5 (12 reviews)''\<rparr>] \<and>
   table_after env_ok (Some [sample_book, sample_book\<lparr>price := ''Free''\<rparr>])
       (table_after env_ok (Some [sample_book, sample_book\<lparr>price := ''Free''\<rparr>]) [old_row])
     = table_after env_ok (Some [sample_book, sample_book\<lparr>price := ''Free''\<rparr>]) [old_row]"
proof -
  let ?b = "sample_book\<lparr>price := ''Free''\<rparr>"
  let ?t = "table_after env_ok (Some [sample_book]) [old_row]"
  have ok: "\<forall>i. \<not> run_raises env_ok i"
    by (simp add: env_ok_def)
  have t: "?t = [old_row, \<lparr>row_title = ''Kubernetes in Action'', row_authors = ''Marko Luksa'',
         row_price = ''39.99 $'', row_rating = ''4.5/5 (12 reviews)''\<rparr>]"
    by (simp add: table_after_fold env_ok_def get_or_def upsert_def sample_book_def old_row_def)
  have mem: "title ?b \<in> row_title ` set ?t"
    unfolding t by (simp add: sample_book_def)
  note th = upsert_overwrites_and_is_idempotent
    [of ?b ?t env_ok "[sample_book, ?b]"]
  have up: "upsert ?b ?t = map (overwrite ?b) ?t"
    using th mem by blast
  have "table_after env_ok (Some [?b]) ?t = upsert ?b ?t"
    using upsert_overwrites_and_is_idempotent[of ?b ?t env_ok "[?b]"] ok by blast
  moreover have "map (overwrite ?b) ?t
     = [old_row, \<lparr>row_title = ''Kubernetes in Action'', row_authors = ''Marko Luksa'',
         row_price = ''Free'', row_rating = ''4.5/5 (12 reviews)''\<rparr>]"
    unfolding t by (simp add: overwrite_def sample_book_def old_row_def)
  ultimately have one: "table_after env_ok (Some [?b]) ?t
     = [old_row, \<lparr>row_title = ''Kubernetes in Action'', row_authors = ''Marko Luksa'',
         row_price = ''Free'', row_rating = ''4.5/5 (12 reviews)''\<rparr>]"
    using up by (simp only:)
  have twice: "table_after env_ok (Some [sample_book, ?b])
       (table_after env_ok (Some [sample_book, ?b]) [old_row])
     = table_after env_ok (Some [sample_book, ?b]) [old_row]"
    using upsert_overwrites_and_is_idempotent[of ?b "[old_row]" env_ok "[sample_book, ?b]"] ok
    by blast
  show ?thesis
    using mem one twice by (intro conjI)
qed

end
